theory Spec2Isabelle
  imports Main "HOL-Library.AList"
begin

section \<open>Python values, dictionaries and exceptions\<close>

text \<open>
  The module \<^verbatim>\<open>lib/pavilion/series.py\<close> is embedded function by function. A Python
  \<^verbatim>\<open>dict\<close> is an association list in insertion order whose keys are distinct
  (\<open>map_of\<close> reads it, \<open>AList.update\<close> is \<^verbatim>\<open>d[k] = v\<close>: it overwrites in place or
  appends). An exception is a value of \<open>py_error\<close> returned on the left of a sum.
\<close>

datatype py_error =
    KeyError
  | ValueError
  | TestSeriesError
  | OtherError

type_synonym ('k, 'v) dict = "('k \<times> 'v) list"

definition keys :: "('k, 'v) dict \<Rightarrow> 'k list" where
  "keys d = map fst d"

section \<open>\<^verbatim>\<open>union_dictionary\<close>\<close>

text \<open>
  \<^verbatim>\<open>
  def union_dictionary(dict1, dict2):
      new_dict = {}
      dict2_keys = list(dict2.keys())
      for key, list_value in dict1.items():
          new_dict[key] = list_value
          if key in dict2.keys():
              new_dict[key].extend(dict2[key])
              dict2_keys.remove(key)
              new_dict[key] = list(set(new_dict[key]))
      for key in dict2_keys:
          new_dict[key] = dict2[key]
      return new_dict
  \<close>
  \<^verbatim>\<open>list(set(xs))\<close> returns the elements of \<open>xs\<close> once each, in the iteration order of
  the set, which the language leaves open. The order is the parameter \<open>to_list\<close>;
  \<open>set_order_ok to_list\<close> says what Python guarantees of it. \<^verbatim>\<open>list.remove\<close> raises
  \<^verbatim>\<open>ValueError\<close> when the element is absent and \<^verbatim>\<open>dict2[key]\<close> raises \<^verbatim>\<open>KeyError\<close>
  when the key is; both are branches of the model. Lists are values here: the in-place
  \<^verbatim>\<open>extend\<close> of the list held by \<open>dict1\<close> is seen in the result only.
\<close>

definition set_order_ok :: "('a list \<Rightarrow> 'a list) \<Rightarrow> bool" where
  "set_order_ok to_list = (\<forall>xs. set (to_list xs) = set xs \<and> distinct (to_list xs))"

fun union_first_loop ::
  "('v list \<Rightarrow> 'v list) \<Rightarrow> ('k, 'v list) dict \<Rightarrow> ('k \<times> 'v list) list \<Rightarrow>
   ('k, 'v list) dict \<times> 'k list \<Rightarrow> py_error + ('k, 'v list) dict \<times> 'k list" where
  "union_first_loop to_list dict2 [] (new_dict, dict2_keys) = Inr (new_dict, dict2_keys)"
| "union_first_loop to_list dict2 ((key, list_value) # items) (new_dict, dict2_keys) =
     (let new_dict1 = AList.update key list_value new_dict in
      case map_of dict2 key of
        None \<Rightarrow> union_first_loop to_list dict2 items (new_dict1, dict2_keys)
      | Some list2 \<Rightarrow>
          if key \<in> set dict2_keys
          then union_first_loop to_list dict2 items
                 (AList.update key (to_list (list_value @ list2)) new_dict1,
                  remove1 key dict2_keys)
          else Inl ValueError)"

fun union_second_loop ::
  "('k, 'v list) dict \<Rightarrow> 'k list \<Rightarrow> ('k, 'v list) dict \<Rightarrow> py_error + ('k, 'v list) dict" where
  "union_second_loop dict2 [] new_dict = Inr new_dict"
| "union_second_loop dict2 (key # dict2_keys) new_dict =
     (case map_of dict2 key of
        None \<Rightarrow> Inl KeyError
      | Some list2 \<Rightarrow> union_second_loop dict2 dict2_keys (AList.update key list2 new_dict))"

definition union_dictionary ::
  "('v list \<Rightarrow> 'v list) \<Rightarrow> ('k, 'v list) dict \<Rightarrow> ('k, 'v list) dict \<Rightarrow>
   py_error + ('k, 'v list) dict" where
  "union_dictionary to_list dict1 dict2 =
     (case union_first_loop to_list dict2 dict1 ([], keys dict2) of
        Inl e \<Rightarrow> Inl e
      | Inr (new_dict, dict2_keys) \<Rightarrow> union_second_loop dict2 dict2_keys new_dict)"

text \<open>
  The state of the first loop after it has consumed \<open>items\<close>, started from
  \<open>(nd0, ks)\<close>; used to reason about the loop by induction.
\<close>

definition first_spec ::
  "('v list \<Rightarrow> 'v list) \<Rightarrow> ('k, 'v list) dict \<Rightarrow> ('k \<times> 'v list) list \<Rightarrow>
   ('k, 'v list) dict \<Rightarrow> 'k list \<Rightarrow> ('k, 'v list) dict \<Rightarrow> 'k list \<Rightarrow> bool" where
  "first_spec to_list dict2 items nd0 ks nd ks' \<longleftrightarrow>
     set ks' = set ks - {k \<in> fst ` set items. map_of dict2 k \<noteq> None} \<and> distinct ks' \<and>
     fst ` set nd = fst ` set nd0 \<union> fst ` set items \<and>
     (distinct (map fst nd0) \<longrightarrow> distinct (map fst nd)) \<and>
     (\<forall>k. map_of nd k =
        (case map_of items k of
           None \<Rightarrow> map_of nd0 k
         | Some l1 \<Rightarrow> (case map_of dict2 k of None \<Rightarrow> Some l1
                       | Some l2 \<Rightarrow> Some (to_list (l1 @ l2)))))"

text \<open>Two \<^verbatim>\<open>only_if\<close> mappings used as a concrete input below.\<close>

definition ex_dict1 :: "(string, string list) dict" where
  "ex_dict1 = [(''sys_os'', [''linux'', ''cle'']), (''user'', [''alice''])]"

definition ex_dict2 :: "(string, string list) dict" where
  "ex_dict2 = [(''sys_os'', [''cle'', ''toss'']), (''host'', [''node01''])]"

section \<open>Test runs, the file system and the code outside this module\<close>

text \<open>
  A \<^verbatim>\<open>TestRun\<close> object, as far as this module reads and writes it: its numeric id, the
  path of its directory, the entries written to its status file by \<^verbatim>\<open>status.set\<close> and
  whether \<^verbatim>\<open>set_run_complete\<close> was called on it by this process.
\<close>

record test_run =
  run_id :: int
  run_path :: string
  run_status :: "(string \<times> string) list"
  run_complete :: bool

text \<open>
  An entry of a series directory is a symbolic link to a target path, or anything else
  (a regular file, a real directory). \<^verbatim>\<open>TestRun.load\<close> is not part of this module: it
  returns a test, raises \<^verbatim>\<open>TestRunError\<close>, or raises an exception of another class.
\<close>

datatype node = Symlink string | NotLink

datatype load_result = Loaded test_run | LoadTestRunError | LoadOtherError

text \<open>
  The file system under \<^verbatim>\<open>pav_cfg.working_dir\<close>: the directories
  \<^verbatim>\<open>series/<id>\<close> with their entries in the order \<^verbatim>\<open>os.listdir\<close> gives them, which
  paths are directories, what \<^verbatim>\<open>TestRun.load\<close> returns for an id, the ids that
  \<^verbatim>\<open>TestRun.create_id_dir\<close> hands out next for a series and for a test run, and the
  per-user file with the last series.
\<close>

record filesystem =
  series_dirs :: "int \<rightharpoonup> (string \<times> node) list"
  is_directory :: "string \<Rightarrow> bool"
  load_test :: "int \<Rightarrow> load_result"
  next_series_id :: int
  next_test_id :: int
  users_writable :: bool
  last_series_file :: "int option"

text \<open>
  What the module takes from Python and from \<^verbatim>\<open>pavilion.utils\<close>: \<open>py_int s\<close> is
  \<^verbatim>\<open>int(s)\<close> on a string (\<open>None\<close> is \<^verbatim>\<open>ValueError\<close>), \<open>format_int i\<close> is
  \<^verbatim>\<open>'{}'.format(i)\<close>, \<open>make_id_name i\<close> is the last component of
  \<^verbatim>\<open>utils.make_id_path(base, i)\<close>, \<open>test_run_path i\<close> is the directory of the test run
  \<open>i\<close>, and \<open>set_to_list\<close> is the iteration order of \<^verbatim>\<open>list(set(...))\<close>.
\<close>

record env =
  py_int :: "string \<Rightarrow> int option"
  format_int :: "int \<Rightarrow> string"
  make_id_name :: "int \<Rightarrow> string"
  test_run_path :: "int \<Rightarrow> string"
  set_to_list :: "string list \<Rightarrow> string list"


section \<open>\<^verbatim>\<open>TestSeries\<close>\<close>

record test_series =
  series_id :: int
  tests :: "(int, test_run) dict"

text \<open>
  \<^verbatim>\<open>link_path.symlink_to(test.path)\<close> in the directory of series \<open>sid\<close>: \<^verbatim>\<open>OSError\<close>
  (\<open>None\<close>) when the directory is missing or the name is taken, a new entry otherwise.
\<close>

definition symlink_to :: "filesystem \<Rightarrow> int \<Rightarrow> string \<Rightarrow> string \<Rightarrow> filesystem option" where
  "symlink_to fs sid name target =
     (case series_dirs fs sid of
        None \<Rightarrow> None
      | Some entries \<Rightarrow>
          if name \<in> set (map fst entries) then None
          else Some (fs\<lparr>series_dirs := (series_dirs fs)(sid \<mapsto> entries @ [(name, Symlink target)])\<rparr>))"






text \<open>
  \<^verbatim>\<open>
      def add_tests(self, test_objs):
          for test in test_objs:
              self.tests[test.id] = test
              link_path = utils.make_id_path(self.path, test.id)
              try:
                  link_path.symlink_to(test.path)
              except OSError as err:
                  raise TestSeriesError(...)
  \<close>
  The exception leaves the object and the directory as they are at the raise, so the
  result carries them beside the error.
\<close>

fun add_tests ::
  "env \<Rightarrow> test_run list \<Rightarrow> test_series \<times> filesystem \<Rightarrow>
   py_error option \<times> test_series \<times> filesystem" where
  "add_tests e [] (s, fs) = (None, s, fs)"
| "add_tests e (test # test_objs) (s, fs) =
     (let s1 = s\<lparr>tests := AList.update (run_id test) test (tests s)\<rparr> in
      case symlink_to fs (series_id s1) (make_id_name e (run_id test)) (run_path test) of
        None \<Rightarrow> (Some TestSeriesError, s1, fs)
      | Some fs' \<Rightarrow> add_tests e test_objs (s1, fs'))"






text \<open>
  Vocabulary for the properties of the registry. \<open>linked\<close>: the series directory holds
  the membership link of a test. \<open>link_entry\<close>: that link as a directory entry. For one
  directory entry that is a link to a directory, \<open>entry_test\<close> is the test the load
  contributes (none for a name that is no number or a test that raises
  \<^verbatim>\<open>TestRunError\<close>), \<open>entry_log\<close> is what is logged for it, and \<open>entry_ok\<close> says that
  the entry raises nothing that escapes the loop.
\<close>

definition link_entry :: "env \<Rightarrow> test_run \<Rightarrow> string \<times> node" where
  "link_entry e t = (make_id_name e (run_id t), Symlink (run_path t))"

definition linked :: "env \<Rightarrow> filesystem \<Rightarrow> int \<Rightarrow> test_run \<Rightarrow> bool" where
  "linked e fs sid t =
     (case series_dirs fs sid of
        None \<Rightarrow> False
      | Some entries \<Rightarrow> link_entry e t \<in> set entries)"




text \<open>
  A concrete environment for the examples: \<^verbatim>\<open>int\<close> on strings of decimal digits, and
  ids written as seven decimal digits.
\<close>

definition digit_val :: "char \<Rightarrow> int option" where
  "digit_val c = map_of (zip ''0123456789'' [0, 1, 2, 3, 4, 5, 6, 7, 8, 9]) c"

fun dec_value :: "int \<Rightarrow> string \<Rightarrow> int option" where
  "dec_value acc [] = Some acc"
| "dec_value acc (c # cs) =
     (case digit_val c of None \<Rightarrow> None | Some d \<Rightarrow> dec_value (10 * acc + d) cs)"

definition ex_py_int :: "string \<Rightarrow> int option" where
  "ex_py_int s = (if s = [] then None else dec_value 0 s)"

definition digit_char :: "int \<Rightarrow> char" where
  "digit_char d = ''0123456789'' ! nat (d mod 10)"

definition ex_make_id_name :: "int \<Rightarrow> string" where
  "ex_make_id_name i =
     map (\<lambda>k. digit_char (i div 10 ^ k)) [6, 5, 4, 3, 2, 1, 0]"

definition ex_format_int :: "int \<Rightarrow> string" where
  "ex_format_int i = dropWhile (\<lambda>c. c = CHR ''0'') (butlast (ex_make_id_name i)) @ [digit_char i]"

definition ex_env :: env where
  "ex_env = \<lparr>py_int = ex_py_int, format_int = ex_format_int, make_id_name = ex_make_id_name,
              test_run_path = (\<lambda>i. ''test_runs/'' @ ex_make_id_name i), set_to_list = remdups\<rparr>"


text \<open>Concrete tests, file systems and series for the examples.\<close>

definition ex_test :: "int \<Rightarrow> test_run" where
  "ex_test i = \<lparr>run_id = i, run_path = ''test_runs/'' @ ex_make_id_name i,
               run_status = [], run_complete = False\<rparr>"

definition ex_fs0 :: filesystem where
  "ex_fs0 = \<lparr>series_dirs = Map.empty, is_directory = (\<lambda>p. True),
             load_test = (\<lambda>i. Loaded (ex_test i)), next_series_id = 1,
             next_test_id = 4, users_writable = True, last_series_file = None\<rparr>"

definition ex_fs2 :: filesystem where
  "ex_fs2 = \<lparr>series_dirs = [1 \<mapsto> [link_entry ex_env (ex_test 3), link_entry ex_env (ex_test 2),
                                 link_entry ex_env (ex_test 1)]],
             is_directory = (\<lambda>p. True),
             load_test = (\<lambda>i. if i = 2 then LoadTestRunError else Loaded (ex_test i)),
             next_series_id = 2, next_test_id = 4, users_writable = True,
             last_series_file = Some 1\<rparr>"




definition ex_series :: test_series where
  "ex_series = \<lparr>series_id = 1, tests = []\<rparr>"

definition ex_fs1 :: filesystem where
  "ex_fs1 = ex_fs0\<lparr>series_dirs := [1 \<mapsto> [link_entry ex_env (ex_test 2)]], next_series_id := 2\<rparr>"

section \<open>\<^verbatim>\<open>SeriesManager\<close>\<close>

text \<open>
  The series configuration \<^verbatim>\<open>series_cfg\<close>: the section \<^verbatim>\<open>'series'\<close> maps each test name
  to its \<^verbatim>\<open>depends_on\<close>, \<^verbatim>\<open>depends_pass\<close>, \<^verbatim>\<open>modes\<close>, \<^verbatim>\<open>only_if\<close> and \<^verbatim>\<open>not_if\<close>;
  \<^verbatim>\<open>'modes'\<close> are the modes of the whole series. \<^verbatim>\<open>depends_pass\<close> is compared with
  the string \<^verbatim>\<open>'True'\<close>, so it is kept as the Python value it is.
\<close>

datatype pyval = PyStr string | PyBool bool | PyNone

record series_test =
  depends_on :: "string list"
  depends_pass :: pyval
  test_modes :: "string list"
  test_only_if :: "(string, string list) dict"
  test_not_if :: "(string, string list) dict"

record series_cfg =
  series_section :: "(string, series_test) dict"
  universal_modes :: "string list"

text \<open>
  A raw test config, as far as the manager touches it: the keys \<^verbatim>\<open>only_if\<close> and
  \<^verbatim>\<open>not_if\<close>, which it merges at setup and deletes before it builds a placeholder
  (\<open>None\<close>: the key is absent).
\<close>

record raw_config =
  cfg_name :: string
  only_if :: "(string, string list) dict option"
  not_if :: "(string, string list) dict option"

text \<open>
  The collaborators of the manager. \<open>load_raw_configs name modes\<close> is
  \<^verbatim>\<open>resolver.load_raw_configs([name], [], modes)\<close>; \<open>run_cmd args\<close> is the list
  \<^verbatim>\<open>run_cmd.last_tests\<close> that \<^verbatim>\<open>run_cmd.run\<close> leaves for these arguments;
  \<open>marker_exists t r\<close> says whether \<^verbatim>\<open>r.path / 'RUN_COMPLETE'\<close> exists at the \<open>t\<close>-th pass
  of the poll loop; \<open>result_value t r\<close> is \<^verbatim>\<open>r.results['result']\<close> read at that pass.
\<close>

record world =
  load_raw_configs :: "string \<Rightarrow> string list \<Rightarrow> raw_config list"
  run_cmd :: "string list \<Rightarrow> test_run list"
  marker_exists :: "nat \<Rightarrow> test_run \<Rightarrow> bool"
  result_value :: "nat \<Rightarrow> test_run \<Rightarrow> string"

text \<open>
  \<^verbatim>\<open>self.test_info[test_name]\<close> with its keys \<^verbatim>\<open>'configs'\<close>, \<^verbatim>\<open>'args'\<close>, \<^verbatim>\<open>'prev'\<close>,
  \<^verbatim>\<open>'next'\<close> and, once the test was run, \<^verbatim>\<open>'obj'\<close>.
\<close>

record info =
  configs :: "raw_config list"
  args :: "string list"
  prev :: "string list"
  nexts :: "string list"
  obj :: "test_run list option"

text \<open>
  The state of the manager: its attributes, the series object with the file system it
  writes to, the number of poll passes done (\<^verbatim>\<open>time.sleep(1)\<close> ends each) and the
  arguments of every call of \<^verbatim>\<open>run_cmd.run\<close> so far.
\<close>

record manager =
  test_info :: "(string, info) dict"
  all_tests :: "string list"
  started :: "string list"
  finished :: "string list"
  not_started :: "string list"
  series_obj :: test_series
  fsys :: filesystem
  clock :: nat
  run_calls :: "string list list"

subsection \<open>Setting up \<^verbatim>\<open>test_info\<close>\<close>

text \<open>
  \<^verbatim>\<open>
              for raw_config in raw_configs:
                  raw_config['only_if'] = union_dictionary(
                      raw_config['only_if'], test_config['only_if'])
                  raw_config['not_if'] = union_dictionary(
                      raw_config['not_if'], test_config['not_if'])
  \<close>
\<close>

definition merge_conditions :: "env \<Rightarrow> series_test \<Rightarrow> raw_config \<Rightarrow> py_error + raw_config" where
  "merge_conditions e test_config raw =
     (case only_if raw of
        None \<Rightarrow> Inl KeyError
      | Some oi \<Rightarrow>
          (case union_dictionary (set_to_list e) oi (test_only_if test_config) of
             Inl err \<Rightarrow> Inl err
           | Inr oi' \<Rightarrow>
               (case not_if raw of
                  None \<Rightarrow> Inl KeyError
                | Some ni \<Rightarrow>
                    (case union_dictionary (set_to_list e) ni (test_not_if test_config) of
                       Inl err \<Rightarrow> Inl err
                     | Inr ni' \<Rightarrow> Inr (raw\<lparr>only_if := Some oi', not_if := Some ni'\<rparr>)))))"

fun merge_all :: "env \<Rightarrow> series_test \<Rightarrow> raw_config list \<Rightarrow> py_error + raw_config list" where
  "merge_all e test_config [] = Inr []"
| "merge_all e test_config (raw # raws) =
     (case merge_conditions e test_config raw of
        Inl err \<Rightarrow> Inl err
      | Inr raw' \<Rightarrow>
          (case merge_all e test_config raws of
             Inl err \<Rightarrow> Inl err
           | Inr raws' \<Rightarrow> Inr (raw' # raws')))"

text \<open>
  \<^verbatim>\<open>TestSeries.id\<close> is \<^verbatim>\<open>'s{}'.format(self._id)\<close>; the arguments of a test are
  \<^verbatim>\<open>['run', '--series-id=<id>', '-m<mode>', ..., test_name]\<close>.
\<close>

definition series_ident :: "env \<Rightarrow> test_series \<Rightarrow> string" where
  "series_ident e s = ''s'' @ format_int e (series_id s)"

definition make_args :: "env \<Rightarrow> test_series \<Rightarrow> string list \<Rightarrow> string \<Rightarrow> string list" where
  "make_args e s all_modes test_name =
     [''run'', ''--series-id='' @ series_ident e s] @ map (\<lambda>mode. ''-m'' @ mode) all_modes @
     [test_name]"

text \<open>
  \<^verbatim>\<open>make_dep_graph\<close>, and the list \<^verbatim>\<open>'next'\<close> of the tests that name \<open>test_name\<close> in their
  \<^verbatim>\<open>depends_on\<close>.
\<close>

definition make_dep_graph :: "series_cfg \<Rightarrow> (string, string list) dict" where
  "make_dep_graph cfg = map (\<lambda>(test_name, test_config). (test_name, depends_on test_config))
     (series_section cfg)"

definition next_list :: "(string, string list) dict \<Rightarrow> string \<Rightarrow> string list" where
  "next_list dep_graph test_name =
     map fst (filter (\<lambda>(t_n, deps). test_name \<in> set deps) dep_graph)"

text \<open>
  The three setup loops of \<^verbatim>\<open>__init__\<close> run over the same keys (those of the section
  \<^verbatim>\<open>'series'\<close>); only the first can raise. They are one pass here, which builds the
  entry of each test in the order of the section.
\<close>

fun setup_test_info ::
  "env \<Rightarrow> world \<Rightarrow> series_cfg \<Rightarrow> test_series \<Rightarrow> (string \<times> series_test) list \<Rightarrow>
   py_error + (string, info) dict" where
  "setup_test_info e w cfg s [] = Inr []"
| "setup_test_info e w cfg s ((test_name, test_config) # items) =
     (let all_modes = universal_modes cfg @ test_modes test_config in
      case merge_all e test_config (load_raw_configs w test_name all_modes) of
        Inl err \<Rightarrow> Inl err
      | Inr raw_configs \<Rightarrow>
          (case setup_test_info e w cfg s items of
             Inl err \<Rightarrow> Inl err
           | Inr rest \<Rightarrow>
               Inr ((test_name,
                     \<lparr>configs = raw_configs,
                      args = make_args e s all_modes test_name,
                      prev = depends_on test_config,
                      nexts = next_list (make_dep_graph cfg) test_name,
                      obj = None\<rparr>) # rest)))"

subsection \<open>The methods\<close>

text \<open>
  \<^verbatim>\<open>
      def run_test(self, test_name):
          run_cmd = commands.get_command('run')
          arg_parser = arguments.get_parser()
          args = arg_parser.parse_args(self.test_info[test_name]['args'])
          run_cmd.run(self.pav_cfg, args)
          self.test_info[test_name]['obj'] = run_cmd.last_tests
          self.started.append(test_name)
  \<close>
\<close>

definition run_test :: "world \<Rightarrow> string \<Rightarrow> manager \<Rightarrow> py_error + manager" where
  "run_test w test_name m =
     (case map_of (test_info m) test_name of
        None \<Rightarrow> Inl KeyError
      | Some tinfo \<Rightarrow>
          Inr (m\<lparr>test_info := AList.update test_name (tinfo\<lparr>obj := Some (run_cmd w (args tinfo))\<rparr>)
                               (test_info m),
                 started := started m @ [test_name],
                 run_calls := run_calls m @ [args tinfo]\<rparr>))"

text \<open>
  \<^verbatim>\<open>
      def is_done(self, test_name):
          if 'obj' not in self.test_info[test_name].keys():
              return False
          test_obj_list = self.test_info[test_name]['obj']
          for test_obj in test_obj_list:
              if not (test_obj.path / 'RUN_COMPLETE').exists():
                  return False
          return True
  \<close>
\<close>

definition is_done :: "world \<Rightarrow> manager \<Rightarrow> string \<Rightarrow> py_error + bool" where
  "is_done w m test_name =
     (case map_of (test_info m) test_name of
        None \<Rightarrow> Inl KeyError
      | Some tinfo \<Rightarrow>
          (case obj tinfo of
             None \<Rightarrow> Inr False
           | Some test_obj_list \<Rightarrow> Inr (list_all (marker_exists w (clock m)) test_obj_list)))"

text \<open>
  \<^verbatim>\<open>
      def all_tests_passed(self, test_names):
          for test_name in test_names:
              if 'obj' not in self.test_info[test_name].keys():
                  return False
              test_obj_list = self.test_info[test_name]['obj']
              for test_obj in test_obj_list:
                  if test_obj.results['result'] != 'PASS':
                      return False
          return True
  \<close>
\<close>

fun all_tests_passed :: "world \<Rightarrow> manager \<Rightarrow> string list \<Rightarrow> py_error + bool" where
  "all_tests_passed w m [] = Inr True"
| "all_tests_passed w m (test_name # test_names) =
     (case map_of (test_info m) test_name of
        None \<Rightarrow> Inl KeyError
      | Some tinfo \<Rightarrow>
          (case obj tinfo of
             None \<Rightarrow> Inr False
           | Some test_obj_list \<Rightarrow>
               if list_all (\<lambda>test_obj. result_value w (clock m) test_obj = ''PASS'') test_obj_list
               then all_tests_passed w m test_names
               else Inr False))"

text \<open>
  \<^verbatim>\<open>
      def check_and_update(self):
          temp_started = copy.deepcopy(self.started)
          for test_name in temp_started:
              if self.is_done(test_name):
                  self.started.remove(test_name)
                  self.finished.append(test_name)
  \<close>
\<close>

fun check_loop :: "world \<Rightarrow> string list \<Rightarrow> manager \<Rightarrow> py_error + manager" where
  "check_loop w [] m = Inr m"
| "check_loop w (test_name # temp_started) m =
     (case is_done w m test_name of
        Inl err \<Rightarrow> Inl err
      | Inr True \<Rightarrow>
          check_loop w temp_started
            (m\<lparr>started := remove1 test_name (started m), finished := finished m @ [test_name]\<rparr>)
      | Inr False \<Rightarrow> check_loop w temp_started m)"

definition check_and_update :: "world \<Rightarrow> manager \<Rightarrow> py_error + manager" where
  "check_and_update w m = check_loop w (started m) m"

subsection \<open>\<^verbatim>\<open>__init__\<close>: kick-off and poll loop\<close>

text \<open>
  \<^verbatim>\<open>
          for test_name in self.test_info:
              if not self.test_info[test_name]['prev']:
                  self.run_test(test_name)
                  self.not_started = list(set(self.all_tests) - set(self.started))
  \<close>
\<close>

fun kick_off :: "env \<Rightarrow> world \<Rightarrow> string list \<Rightarrow> manager \<Rightarrow> py_error + manager" where
  "kick_off e w [] m = Inr m"
| "kick_off e w (test_name # names) m =
     (case map_of (test_info m) test_name of
        None \<Rightarrow> Inl KeyError
      | Some tinfo \<Rightarrow>
          if prev tinfo = [] then
            (case run_test w test_name m of
               Inl err \<Rightarrow> Inl err
             | Inr m1 \<Rightarrow>
                 kick_off e w names
                   (m1\<lparr>not_started :=
                         set_to_list e (filter (\<lambda>n. n \<notin> set (started m1)) (all_tests m1))\<rparr>))
          else kick_off e w names m)"

text \<open>
  Modelled from the spec: the constructor \<^verbatim>\<open>TestRun(pav_cfg, config)\<close> is not in this
  module; it makes a new instance with a fresh numeric id and its own storage location.
\<close>

definition new_test_run :: "env \<Rightarrow> filesystem \<Rightarrow> test_run \<times> filesystem" where
  "new_test_run e fs =
     (\<lparr>run_id = next_test_id fs, run_path = test_run_path e (next_test_id fs),
       run_status = [], run_complete = False\<rparr>,
      fs\<lparr>next_test_id := next_test_id fs + 1\<rparr>)"

text \<open>
  \<^verbatim>\<open>del config['only_if']; del config['not_if']\<close>: \<^verbatim>\<open>KeyError\<close> when a key is absent.
\<close>

definition del_conditions :: "raw_config \<Rightarrow> py_error + raw_config" where
  "del_conditions config =
     (case only_if config of
        None \<Rightarrow> Inl KeyError
      | Some oi \<Rightarrow>
          (case not_if config of
             None \<Rightarrow> Inl KeyError
           | Some ni \<Rightarrow> Inr (config\<lparr>only_if := None, not_if := None\<rparr>)))"

text \<open>
  The skip branch:
  \<^verbatim>\<open>
                              for config in self.test_info[test_name]['configs']:
                                  del config['only_if']
                                  del config['not_if']
                                  skipped_test = TestRun(self.pav_cfg, config)
                                  skipped_test.status.set(
                                      STATES.COMPLETE,
                                      "Skipping. Previous test did not PASS.")
                                  skipped_test.set_run_complete()
                                  self.series_obj.add_tests([skipped_test])
  \<close>
  The result holds the configs as the loop leaves them, the placeholders it made, and
  the series with its file system.
\<close>

definition skip_message :: string where
  "skip_message = ''Skipping. Previous test did not PASS.''"

definition mark_skipped :: "test_run \<Rightarrow> test_run" where
  "mark_skipped t =
     t\<lparr>run_status := run_status t @ [(''COMPLETE'', skip_message)], run_complete := True\<rparr>"

fun skip_configs ::
  "env \<Rightarrow> raw_config list \<Rightarrow> test_series \<times> filesystem \<Rightarrow>
   py_error + raw_config list \<times> test_run list \<times> test_series \<times> filesystem" where
  "skip_configs e [] (s, fs) = Inr ([], [], s, fs)"
| "skip_configs e (config # cs) (s, fs) =
     (case del_conditions config of
        Inl err \<Rightarrow> Inl err
      | Inr config' \<Rightarrow>
          (let (t0, fs1) = new_test_run e fs;
               skipped_test = mark_skipped t0
           in case add_tests e [skipped_test] (s, fs1) of
                (Some err, s1, fs2) \<Rightarrow> Inl err
              | (None, s1, fs2) \<Rightarrow>
                  (case skip_configs e cs (s1, fs2) of
                     Inl err \<Rightarrow> Inl err
                   | Inr (cs', skipped, s2, fs3) \<Rightarrow>
                       Inr (config' # cs', skipped_test # skipped, s2, fs3))))"

text \<open>\<^verbatim>\<open>self.not_started.remove(test_name)\<close>: \<^verbatim>\<open>ValueError\<close> when the name is absent.\<close>

definition not_started_remove :: "string \<Rightarrow> manager \<Rightarrow> py_error + manager" where
  "not_started_remove test_name m =
     (if test_name \<in> set (not_started m)
      then Inr (m\<lparr>not_started := remove1 test_name (not_started m)\<rparr>)
      else Inl ValueError)"

text \<open>
  The body of \<^verbatim>\<open>for test_name in temp_waiting\<close>:
  \<^verbatim>\<open>
                  ready = all(wait in self.finished for wait in self.test_info[
                      test_name]['prev'])
                  if ready:
                      if self.series_section[test_name]['depends_pass'] == 'True':
                          if self.all_tests_passed(
                                  self.test_info[test_name]['prev']):
                              self.run_test(test_name)
                              self.not_started.remove(test_name)
                          else:
                              for config in self.test_info[test_name]['configs']:
                                  ...
                              self.not_started.remove(test_name)
                              self.finished.append(test_name)
                      else:
                          self.run_test(test_name)
                          self.not_started.remove(test_name)
  \<close>
\<close>

definition ready :: "manager \<Rightarrow> info \<Rightarrow> bool" where
  "ready m tinfo = list_all (\<lambda>wait. wait \<in> set (finished m)) (prev tinfo)"

definition launch :: "world \<Rightarrow> string \<Rightarrow> manager \<Rightarrow> py_error + manager" where
  "launch w test_name m =
     (case run_test w test_name m of
        Inl err \<Rightarrow> Inl err
      | Inr m1 \<Rightarrow> not_started_remove test_name m1)"

definition skip :: "env \<Rightarrow> string \<Rightarrow> info \<Rightarrow> manager \<Rightarrow> py_error + manager" where
  "skip e test_name tinfo m =
     (case skip_configs e (configs tinfo) (series_obj m, fsys m) of
        Inl err \<Rightarrow> Inl err
      | Inr (cs', skipped, s', fs') \<Rightarrow>
          (case not_started_remove test_name
                  (m\<lparr>test_info := AList.update test_name (tinfo\<lparr>configs := cs'\<rparr>) (test_info m),
                     series_obj := s', fsys := fs'\<rparr>) of
             Inl err \<Rightarrow> Inl err
           | Inr m1 \<Rightarrow> Inr (m1\<lparr>finished := finished m1 @ [test_name]\<rparr>)))"

definition waiting_step ::
  "env \<Rightarrow> world \<Rightarrow> series_cfg \<Rightarrow> string \<Rightarrow> manager \<Rightarrow> py_error + manager" where
  "waiting_step e w cfg test_name m =
     (case map_of (test_info m) test_name of
        None \<Rightarrow> Inl KeyError
      | Some tinfo \<Rightarrow>
          if ready m tinfo then
            (case map_of (series_section cfg) test_name of
               None \<Rightarrow> Inl KeyError
             | Some test_config \<Rightarrow>
                 if depends_pass test_config = PyStr ''True'' then
                   (case all_tests_passed w m (prev tinfo) of
                      Inl err \<Rightarrow> Inl err
                    | Inr True \<Rightarrow> launch w test_name m
                    | Inr False \<Rightarrow> skip e test_name tinfo m)
                 else launch w test_name m)
          else Inr m)"

fun waiting_loop ::
  "env \<Rightarrow> world \<Rightarrow> series_cfg \<Rightarrow> string list \<Rightarrow> manager \<Rightarrow> py_error + manager" where
  "waiting_loop e w cfg [] m = Inr m"
| "waiting_loop e w cfg (test_name # temp_waiting) m =
     (case waiting_step e w cfg test_name m of
        Inl err \<Rightarrow> Inl err
      | Inr m1 \<Rightarrow> waiting_loop e w cfg temp_waiting m1)"

text \<open>
  One pass of the poll loop:
  \<^verbatim>\<open>
              self.check_and_update()
              temp_waiting = copy.deepcopy(self.not_started)
              for test_name in temp_waiting:
                  ...
              time.sleep(1)
  \<close>
\<close>

definition loop_body :: "env \<Rightarrow> world \<Rightarrow> series_cfg \<Rightarrow> manager \<Rightarrow> py_error + manager" where
  "loop_body e w cfg m =
     (case check_and_update w m of
        Inl err \<Rightarrow> Inl err
      | Inr m1 \<Rightarrow>
          (case waiting_loop e w cfg (not_started m1) m1 of
             Inl err \<Rightarrow> Inl err
           | Inr m2 \<Rightarrow> Inr (m2\<lparr>clock := Suc (clock m2)\<rparr>)))"

text \<open>
  \<^verbatim>\<open>while len(self.not_started) != 0\<close> may run forever, so the loop takes fuel: the
  number of passes it may make. It returns (\<open>Done\<close>), raises, or is still running after
  that many passes, in the state \<open>OutOfFuel\<close> shows.
\<close>

datatype run_result = Done manager | Raises py_error | OutOfFuel manager

fun main_loop :: "env \<Rightarrow> world \<Rightarrow> series_cfg \<Rightarrow> nat \<Rightarrow> manager \<Rightarrow> run_result" where
  "main_loop e w cfg 0 m = (if not_started m = [] then Done m else OutOfFuel m)"
| "main_loop e w cfg (Suc fuel) m =
     (if not_started m = [] then Done m
      else case loop_body e w cfg m of
             Inl err \<Rightarrow> Raises err
           | Inr m' \<Rightarrow> main_loop e w cfg fuel m')"

text \<open>
  \<^verbatim>\<open>SeriesManager.__init__\<close>: setup, kick-off, poll loop. \<open>before_loop\<close> is the state
  in which the poll loop is entered.
\<close>

definition initial_manager :: "(string, info) dict \<Rightarrow> test_series \<Rightarrow> filesystem \<Rightarrow> manager" where
  "initial_manager ti s fs =
     \<lparr>test_info = ti, all_tests = keys ti, started = [], finished = [], not_started = [],
      series_obj = s, fsys = fs, clock = 0, run_calls = []\<rparr>"

definition before_loop ::
  "env \<Rightarrow> world \<Rightarrow> series_cfg \<Rightarrow> test_series \<Rightarrow> filesystem \<Rightarrow> py_error + manager" where
  "before_loop e w cfg s fs =
     (case setup_test_info e w cfg s (series_section cfg) of
        Inl err \<Rightarrow> Inl err
      | Inr ti \<Rightarrow> kick_off e w (keys ti) (initial_manager ti s fs))"

definition manager_init ::
  "env \<Rightarrow> world \<Rightarrow> series_cfg \<Rightarrow> test_series \<Rightarrow> filesystem \<Rightarrow> nat \<Rightarrow> run_result" where
  "manager_init e w cfg s fs fuel =
     (case before_loop e w cfg s fs of
        Inl err \<Rightarrow> Raises err
      | Inr m \<Rightarrow> main_loop e w cfg fuel m)"

section \<open>Properties of \<^verbatim>\<open>union_dictionary\<close>\<close>

lemma set_order_ok_remdups: "set_order_ok remdups"
  by (simp add: set_order_ok_def)

lemma first_spec_None:
  assumes "first_spec to_list dict2 items (AList.update key lv nd0) ks nd ks'"
    and "map_of dict2 key = None" and "key \<notin> fst ` set items"
  shows "first_spec to_list dict2 ((key, lv) # items) nd0 ks nd ks'"
proof -
  have m: "map_of items key = None" using assms(3) by (simp add: map_of_eq_None_iff)
  have 1: "set ks' = set ks - {k \<in> fst ` set ((key, lv) # items). map_of dict2 k \<noteq> None}"
    using assms(1,2) unfolding first_spec_def by auto
  have 2: "fst ` set nd = fst ` set nd0 \<union> fst ` set ((key, lv) # items)"
    using assms(1) unfolding first_spec_def by (auto simp: dom_update)
  have 3: "distinct (map fst nd0) \<longrightarrow> distinct (map fst nd)"
    using assms(1) unfolding first_spec_def by (simp add: distinct_update)
  have 4: "map_of nd k =
        (case map_of ((key, lv) # items) k of
           None \<Rightarrow> map_of nd0 k
         | Some l1 \<Rightarrow> (case map_of dict2 k of None \<Rightarrow> Some l1
                       | Some l2 \<Rightarrow> Some (to_list (l1 @ l2))))" for k
  proof (cases "k = key")
    case True
    then show ?thesis using assms(1,2) m unfolding first_spec_def by (simp add: update_conv')
  next
    case False
    then show ?thesis using assms(1) unfolding first_spec_def
      by (simp add: update_conv' split: option.split)
  qed
  show ?thesis unfolding first_spec_def using 1 2 3 4 assms(1)[unfolded first_spec_def] by blast
qed

lemma first_spec_Some:
  assumes "first_spec to_list dict2 items
             (AList.update key (to_list (lv @ l2)) (AList.update key lv nd0)) (remove1 key ks) nd ks'"
    and "map_of dict2 key = Some l2" and "key \<notin> fst ` set items" and "distinct ks"
  shows "first_spec to_list dict2 ((key, lv) # items) nd0 ks nd ks'"
proof -
  have m: "map_of items key = None" using assms(3) by (simp add: map_of_eq_None_iff)
  have 1: "set ks' = set ks - {k \<in> fst ` set ((key, lv) # items). map_of dict2 k \<noteq> None}"
    using assms(1,2,4) unfolding first_spec_def by auto
  have 2: "fst ` set nd = fst ` set nd0 \<union> fst ` set ((key, lv) # items)"
    using assms(1) unfolding first_spec_def by (auto simp: dom_update)
  have 3: "distinct (map fst nd0) \<longrightarrow> distinct (map fst nd)"
    using assms(1) unfolding first_spec_def by (simp add: distinct_update)
  have 4: "map_of nd k =
        (case map_of ((key, lv) # items) k of
           None \<Rightarrow> map_of nd0 k
         | Some l1 \<Rightarrow> (case map_of dict2 k of None \<Rightarrow> Some l1
                       | Some l2 \<Rightarrow> Some (to_list (l1 @ l2))))" for k
  proof (cases "k = key")
    case True
    then show ?thesis using assms(1,2) m unfolding first_spec_def by (simp add: update_conv')
  next
    case False
    then show ?thesis using assms(1) unfolding first_spec_def
      by (simp add: update_conv' split: option.split)
  qed
  show ?thesis unfolding first_spec_def using 1 2 3 4 assms(1)[unfolded first_spec_def] by blast
qed

lemma union_first_loop_ok:
  assumes "distinct (map fst items)" "distinct ks"
    and "\<forall>k \<in> fst ` set items. map_of dict2 k \<noteq> None \<longrightarrow> k \<in> set ks"
  shows "\<exists>nd ks'. union_first_loop to_list dict2 items (nd0, ks) = Inr (nd, ks') \<and>
           first_spec to_list dict2 items nd0 ks nd ks'"
  using assms
proof (induction items arbitrary: nd0 ks)
  case Nil
  then show ?case by (simp add: first_spec_def)
next
  case (Cons it items)
  obtain key lv where it: "it = (key, lv)" by (cases it)
  have kn: "key \<notin> fst ` set items" and d: "distinct (map fst items)"
    using Cons.prems(1) it by auto
  show ?case
  proof (cases "map_of dict2 key")
    case None
    have pre: "\<forall>k \<in> fst ` set items. map_of dict2 k \<noteq> None \<longrightarrow> k \<in> set ks"
      using Cons.prems(3) by auto
    from Cons.IH[OF d Cons.prems(2) pre, of "AList.update key lv nd0"]
    obtain nd ks' where
      r: "union_first_loop to_list dict2 items (AList.update key lv nd0, ks) = Inr (nd, ks')"
      and s: "first_spec to_list dict2 items (AList.update key lv nd0) ks nd ks'" by blast
    have "union_first_loop to_list dict2 (it # items) (nd0, ks) = Inr (nd, ks')"
      using r None it by simp
    moreover have "first_spec to_list dict2 (it # items) nd0 ks nd ks'"
      unfolding it by (rule first_spec_None[OF s None kn])
    ultimately show ?thesis by blast
  next
    case (Some l2)
    have kin: "key \<in> set ks" using Cons.prems(3) it Some by auto
    have pre: "\<forall>k \<in> fst ` set items. map_of dict2 k \<noteq> None \<longrightarrow> k \<in> set (remove1 key ks)"
    proof (intro ballI impI)
      fix k assume k: "k \<in> fst ` set items" "map_of dict2 k \<noteq> None"
      then have "k \<in> set ks" using Cons.prems(3) by auto
      moreover have "k \<noteq> key" using k(1) kn by blast
      ultimately show "k \<in> set (remove1 key ks)" by simp
    qed
    have d2: "distinct (remove1 key ks)" using Cons.prems(2) by simp
    from Cons.IH[OF d d2 pre,
        of "AList.update key (to_list (lv @ l2)) (AList.update key lv nd0)"]
    obtain nd ks' where
      r: "union_first_loop to_list dict2 items
            (AList.update key (to_list (lv @ l2)) (AList.update key lv nd0), remove1 key ks)
          = Inr (nd, ks')"
      and s: "first_spec to_list dict2 items
            (AList.update key (to_list (lv @ l2)) (AList.update key lv nd0)) (remove1 key ks) nd ks'"
      by blast
    have "union_first_loop to_list dict2 (it # items) (nd0, ks) = Inr (nd, ks')"
      using r Some it kin by simp
    moreover have "first_spec to_list dict2 (it # items) nd0 ks nd ks'"
      unfolding it by (rule first_spec_Some[OF s Some kn Cons.prems(2)])
    ultimately show ?thesis by blast
  qed
qed

lemma union_second_loop_ok:
  assumes "\<forall>k \<in> set ks. map_of dict2 k \<noteq> None"
  shows "\<exists>r. union_second_loop dict2 ks nd = Inr r \<and>
         fst ` set r = fst ` set nd \<union> set ks \<and>
         (distinct (map fst nd) \<longrightarrow> distinct (map fst r)) \<and>
         (\<forall>k. map_of r k = (if k \<in> set ks then map_of dict2 k else map_of nd k))"
  using assms
proof (induction ks arbitrary: nd)
  case Nil
  then show ?case by simp
next
  case (Cons key ks)
  then obtain l2 where l2: "map_of dict2 key = Some l2" by auto
  have pre: "\<forall>k \<in> set ks. map_of dict2 k \<noteq> None" using Cons.prems by simp
  from Cons.IH[OF pre, of "AList.update key l2 nd"]
  obtain r where r: "union_second_loop dict2 ks (AList.update key l2 nd) = Inr r"
    "fst ` set r = fst ` set (AList.update key l2 nd) \<union> set ks"
    "distinct (map fst (AList.update key l2 nd)) \<longrightarrow> distinct (map fst r)"
    "\<forall>k. map_of r k = (if k \<in> set ks then map_of dict2 k else map_of (AList.update key l2 nd) k)"
    by blast
  have a: "union_second_loop dict2 (key # ks) nd = Inr r" using r(1) l2 by simp
  have b: "fst ` set r = fst ` set nd \<union> set (key # ks)" using r(2) by (auto simp: dom_update)
  have c: "distinct (map fst nd) \<longrightarrow> distinct (map fst r)" using r(3) by (simp add: distinct_update)
  have d: "map_of r k = (if k \<in> set (key # ks) then map_of dict2 k else map_of nd k)" for k
    using r(4) l2 by (simp add: update_conv')
  show ?case using a b c d by blast
qed

text \<open>
  Claim C4. For two conditional-predicate mappings (dictionaries with distinct keys), the
  merge returns normally; the key set of the result is the union of the two key sets; a
  key of both inputs maps to a duplicate-free list whose elements are exactly those of
  the two value lists; a key of only one input keeps the value it had there.
\<close>

theorem union_dictionary_merge:
  assumes "distinct (keys dict1)" and "distinct (keys dict2)" and "set_order_ok to_list"
  shows "\<exists>new_dict. union_dictionary to_list dict1 dict2 = Inr new_dict \<and>
           distinct (keys new_dict) \<and>
           set (keys new_dict) = set (keys dict1) \<union> set (keys dict2) \<and>
           (\<forall>key l1 l2. map_of dict1 key = Some l1 \<and> map_of dict2 key = Some l2 \<longrightarrow>
              (\<exists>l. map_of new_dict key = Some l \<and> set l = set l1 \<union> set l2 \<and> distinct l)) \<and>
           (\<forall>key. map_of dict2 key = None \<longrightarrow> map_of new_dict key = map_of dict1 key) \<and>
           (\<forall>key. map_of dict1 key = None \<longrightarrow> map_of new_dict key = map_of dict2 key)"
proof -
  have d1: "distinct (map fst dict1)" and d2: "distinct (map fst dict2)"
    using assms(1,2) by (simp_all add: keys_def)
  have pre: "\<forall>k \<in> fst ` set dict1. map_of dict2 k \<noteq> None \<longrightarrow> k \<in> set (keys dict2)"
    by (auto simp: keys_def dest: map_of_SomeD intro: rev_image_eqI)
  from union_first_loop_ok[OF d1 d2[folded keys_def] pre, of to_list "[]"]
  obtain nd ks' where
    f: "union_first_loop to_list dict2 dict1 ([], keys dict2) = Inr (nd, ks')"
    and s: "first_spec to_list dict2 dict1 [] (keys dict2) nd ks'" by blast
  have ks': "set ks' = set (keys dict2) - {k \<in> fst ` set dict1. map_of dict2 k \<noteq> None}"
    and dnd: "distinct (map fst nd)"
    and knd: "fst ` set nd = fst ` set dict1"
    and mnd: "\<And>k. map_of nd k =
        (case map_of dict1 k of
           None \<Rightarrow> None
         | Some l1 \<Rightarrow> (case map_of dict2 k of None \<Rightarrow> Some l1
                       | Some l2 \<Rightarrow> Some (to_list (l1 @ l2))))"
    using s unfolding first_spec_def by (simp_all split: option.split)
  have in2: "\<forall>k \<in> set ks'. map_of dict2 k \<noteq> None"
    using ks' by (auto simp: keys_def map_of_eq_None_iff)
  from union_second_loop_ok[OF in2, of nd]
  obtain r where r: "union_second_loop dict2 ks' nd = Inr r"
    and kr: "fst ` set r = fst ` set nd \<union> set ks'"
    and dr: "distinct (map fst r)"
    and mr: "\<And>k. map_of r k = (if k \<in> set ks' then map_of dict2 k else map_of nd k)"
    using dnd by blast
  have res: "union_dictionary to_list dict1 dict2 = Inr r"
    using f r by (simp add: union_dictionary_def)
  have dom1: "k \<in> fst ` set dict1 \<longleftrightarrow> map_of dict1 k \<noteq> None" for k
    by (simp add: map_of_eq_None_iff)
  have dom2: "k \<in> set (keys dict2) \<longleftrightarrow> map_of dict2 k \<noteq> None" for k
    by (simp add: map_of_eq_None_iff keys_def)
  have mem: "k \<in> set ks' \<longleftrightarrow> map_of dict2 k \<noteq> None \<and> map_of dict1 k = None" for k
    unfolding ks' using dom1[of k] dom2[of k] by auto
  have keyset: "set (keys r) = set (keys dict1) \<union> set (keys dict2)"
  proof -
    have "set (keys r) = fst ` set dict1 \<union> set ks'" using kr knd by (simp add: keys_def)
    also have "\<dots> = fst ` set dict1 \<union> set (keys dict2)" using ks' by auto
    finally show ?thesis by (simp add: keys_def)
  qed
  have both: "\<exists>l. map_of r key = Some l \<and> set l = set l1 \<union> set l2 \<and> distinct l"
    if "map_of dict1 key = Some l1 \<and> map_of dict2 key = Some l2" for key l1 l2
  proof -
    have "map_of r key = Some (to_list (l1 @ l2))"
      using that mr[of key] mem[of key] mnd[of key] by simp
    moreover have "set (to_list (l1 @ l2)) = set l1 \<union> set l2" "distinct (to_list (l1 @ l2))"
      using assms(3) by (simp_all add: set_order_ok_def)
    ultimately show ?thesis by blast
  qed
  have only1: "map_of r key = map_of dict1 key" if "map_of dict2 key = None" for key
    using that mr[of key] mem[of key] mnd[of key] by (simp split: option.split)
  have only2: "map_of r key = map_of dict2 key" if "map_of dict1 key = None" for key
    using that mr[of key] mem[of key] mnd[of key] by (cases "map_of dict2 key") simp_all
  show ?thesis
    using res dr keyset both only1 only2 unfolding keys_def by blast
qed

text \<open>The theorem at a concrete pair of mappings, with \<open>remdups\<close> as the set order.\<close>

theorem union_dictionary_merge_witness:
  "distinct (keys ex_dict1) \<and> distinct (keys ex_dict2) \<and>
   set_order_ok (remdups :: string list \<Rightarrow> string list) \<and>
   union_dictionary remdups ex_dict1 ex_dict2 =
     Inr [(''sys_os'', [''linux'', ''cle'', ''toss'']), (''user'', [''alice'']),
          (''host'', [''node01''])] \<and>
   (\<exists>new_dict. union_dictionary remdups ex_dict1 ex_dict2 = Inr new_dict \<and>
      set (keys new_dict) = {''sys_os'', ''user'', ''host''} \<and>
      (\<exists>l. map_of new_dict ''sys_os'' = Some l \<and> set l = {''linux'', ''cle'', ''toss''} \<and>
           distinct l) \<and>
      map_of new_dict ''user'' = Some [''alice''] \<and>
      map_of new_dict ''host'' = Some [''node01''])"
proof -
  have h1: "distinct (keys ex_dict1)" and h2: "distinct (keys ex_dict2)"
    by (simp_all add: keys_def ex_dict1_def ex_dict2_def)
  have h3: "set_order_ok (remdups :: string list \<Rightarrow> string list)"
    by (rule set_order_ok_remdups)
  have v: "union_dictionary remdups ex_dict1 ex_dict2 =
     Inr [(''sys_os'', [''linux'', ''cle'', ''toss'']), (''user'', [''alice'']),
          (''host'', [''node01''])]"
    by (simp add: union_dictionary_def keys_def ex_dict1_def ex_dict2_def)
  from union_dictionary_merge[OF h1 h2 h3] v
  have "\<exists>new_dict. union_dictionary remdups ex_dict1 ex_dict2 = Inr new_dict \<and>
      set (keys new_dict) = {''sys_os'', ''user'', ''host''} \<and>
      (\<exists>l. map_of new_dict ''sys_os'' = Some l \<and> set l = {''linux'', ''cle'', ''toss''} \<and>
           distinct l) \<and>
      map_of new_dict ''user'' = Some [''alice''] \<and>
      map_of new_dict ''host'' = Some [''node01'']"
    by (simp add: keys_def)
  then show ?thesis using h1 h2 h3 v by blast
qed

section \<open>Properties of the series registry\<close>

lemmas ex_simps = ex_env_def ex_py_int_def ex_make_id_name_def ex_format_int_def digit_char_def
  digit_val_def
  ex_test_def ex_fs0_def ex_fs2_def link_entry_def


subsection \<open>\<^verbatim>\<open>add_tests\<close>\<close>

lemma add_tests_append:
  "add_tests e (xs @ ys) (s, fs) =
     (case add_tests e xs (s, fs) of
        (None, s1, fs1) \<Rightarrow> add_tests e ys (s1, fs1)
      | (Some err, s1, fs1) \<Rightarrow> (Some err, s1, fs1))"
  by (induction xs arbitrary: s fs) (simp_all add: Let_def split: option.split)

lemma symlink_to_linked:
  assumes "symlink_to fs sid name target = Some fs'"
  shows "series_dirs fs' sid = Some (the (series_dirs fs sid) @ [(name, Symlink target)])"
    and "linked e fs sid u \<Longrightarrow> linked e fs' sid u"
  using assms
  by (auto simp: symlink_to_def linked_def link_entry_def split: option.splits if_splits)

lemma add_tests_Cons_None:
  assumes "add_tests e (t # xs) (s, fs) = (None, s1, fs1)"
  shows "\<exists>fs'. symlink_to fs (series_id s) (make_id_name e (run_id t)) (run_path t) = Some fs' \<and>
           add_tests e xs (s\<lparr>tests := AList.update (run_id t) t (tests s)\<rparr>, fs') = (None, s1, fs1)"
  using assms by (simp add: Let_def split: option.splits)

lemma add_tests_ok:
  assumes "add_tests e xs (s, fs) = (None, s1, fs1)"
  shows "series_id s1 = series_id s \<and>
         set (keys (tests s1)) = set (keys (tests s)) \<union> run_id ` set xs \<and>
         (\<forall>t \<in> set xs. linked e fs1 (series_id s) t) \<and>
         (\<forall>u. linked e fs (series_id s) u \<longrightarrow> linked e fs1 (series_id s) u)"
  using assms
proof (induction xs arbitrary: s fs)
  case Nil
  then show ?case by simp
next
  case (Cons t xs)
  let ?s = "s\<lparr>tests := AList.update (run_id t) t (tests s)\<rparr>"
  from add_tests_Cons_None[OF Cons.prems]
  obtain fs' where l: "symlink_to fs (series_id s) (make_id_name e (run_id t)) (run_path t) = Some fs'"
    and r: "add_tests e xs (?s, fs') = (None, s1, fs1)" by blast
  note ih = Cons.IH[OF r]
  have 1: "series_id s1 = series_id s" using ih by simp
  have 2: "set (keys (tests s1)) = set (keys (tests s)) \<union> run_id ` set (t # xs)"
    using ih by (auto simp: keys_def dom_update)
  have lt: "linked e fs' (series_id s) t"
    using symlink_to_linked(1)[OF l] by (simp add: linked_def link_entry_def)
  have 3: "\<forall>t' \<in> set (t # xs). linked e fs1 (series_id s) t'"
    using ih lt by simp
  have 4: "\<forall>u. linked e fs (series_id s) u \<longrightarrow> linked e fs1 (series_id s) u"
    using ih symlink_to_linked(2)[OF l] by simp
  show ?case using 1 2 3 4 by blast
qed

text \<open>
  Claim C10. Adding tests is not atomic. When the links of the tests \<open>pre\<close> are created
  and the link of the next test \<open>t\<close> cannot be, \<^verbatim>\<open>add_tests\<close> raises
  \<^verbatim>\<open>TestSeriesError\<close>; at the raise \<open>t\<close> is already in the \<open>tests\<close> mapping, so is every
  test of \<open>pre\<close>, every test of \<open>pre\<close> is linked in the directory, and the object and
  the directory stay as they are: nothing is rolled back, and the tests after \<open>t\<close> are
  not looked at.
\<close>

theorem add_tests_not_atomic:
  assumes "add_tests e pre (s, fs) = (None, s1, fs1)"
    and "symlink_to fs1 (series_id s) (make_id_name e (run_id t)) (run_path t) = None"
  shows "\<exists>s2. add_tests e (pre @ t # post) (s, fs) = (Some TestSeriesError, s2, fs1) \<and>
           tests s2 = AList.update (run_id t) t (tests s1) \<and>
           map_of (tests s2) (run_id t) = Some t \<and>
           (\<forall>u \<in> set pre. run_id u \<in> set (keys (tests s2)) \<and> linked e fs1 (series_id s) u)"
proof -
  let ?s2 = "s1\<lparr>tests := AList.update (run_id t) t (tests s1)\<rparr>"
  have sid: "series_id s1 = series_id s" using add_tests_ok[OF assms(1)] by simp
  have "add_tests e (t # post) (s1, fs1) = (Some TestSeriesError, ?s2, fs1)"
    using assms(2) sid by (simp add: Let_def)
  then have a: "add_tests e (pre @ t # post) (s, fs) = (Some TestSeriesError, ?s2, fs1)"
    using assms(1) by (simp add: add_tests_append)
  have b: "map_of (tests ?s2) (run_id t) = Some t" by (simp add: update_conv')
  have c: "\<forall>u \<in> set pre. run_id u \<in> set (keys (tests ?s2)) \<and> linked e fs1 (series_id s) u"
    using add_tests_ok[OF assms(1)] by (auto simp: keys_def dom_update)
  show ?thesis using a b c by (intro exI[of _ ?s2]) simp
qed

text \<open>A series whose directory already holds the link of test 2: adding tests 1, 2, 3.\<close>

theorem add_tests_not_atomic_witness:
  "add_tests ex_env [ex_test 1] (ex_series, ex_fs1) =
     (None, \<lparr>series_id = 1, tests = [(1, ex_test 1)]\<rparr>,
      ex_fs1\<lparr>series_dirs := [1 \<mapsto> [link_entry ex_env (ex_test 2), link_entry ex_env (ex_test 1)]]\<rparr>) \<and>
   symlink_to (ex_fs1\<lparr>series_dirs :=
        [1 \<mapsto> [link_entry ex_env (ex_test 2), link_entry ex_env (ex_test 1)]]\<rparr>)
      (series_id ex_series) (make_id_name ex_env (run_id (ex_test 2))) (run_path (ex_test 2)) = None \<and>
   add_tests ex_env ([ex_test 1] @ ex_test 2 # [ex_test 3]) (ex_series, ex_fs1) =
     (Some TestSeriesError, \<lparr>series_id = 1, tests = [(1, ex_test 1), (2, ex_test 2)]\<rparr>,
      ex_fs1\<lparr>series_dirs := [1 \<mapsto> [link_entry ex_env (ex_test 2), link_entry ex_env (ex_test 1)]]\<rparr>)"
proof -
  let ?fs = "ex_fs1\<lparr>series_dirs := [1 \<mapsto> [link_entry ex_env (ex_test 2), link_entry ex_env (ex_test 1)]]\<rparr>"
  have a: "add_tests ex_env [ex_test 1] (ex_series, ex_fs1) =
     (None, \<lparr>series_id = 1, tests = [(1, ex_test 1)]\<rparr>, ?fs)"
    by (simp add: symlink_to_def ex_series_def ex_fs1_def ex_simps Let_def)
  have b: "symlink_to ?fs (series_id ex_series) (make_id_name ex_env (run_id (ex_test 2)))
      (run_path (ex_test 2)) = None"
    by (simp add: symlink_to_def ex_series_def ex_fs1_def ex_simps)
  from add_tests_not_atomic[OF a b, of "[ex_test 3]"]
  obtain s2 where r: "add_tests ex_env ([ex_test 1] @ ex_test 2 # [ex_test 3]) (ex_series, ex_fs1) =
      (Some TestSeriesError, s2, ?fs)"
    and t2: "tests s2 = AList.update (run_id (ex_test 2)) (ex_test 2) (tests \<lparr>series_id = 1, tests = [(1, ex_test 1)]\<rparr>)"
    by blast
  have "add_tests ex_env ([ex_test 1] @ ex_test 2 # [ex_test 3]) (ex_series, ex_fs1) =
     (Some TestSeriesError, \<lparr>series_id = 1, tests = [(1, ex_test 1), (2, ex_test 2)]\<rparr>, ?fs)"
    by (simp add: symlink_to_def ex_series_def ex_fs1_def ex_simps Let_def)
  then show ?thesis using a b r by simp
qed

subsection \<open>\<^verbatim>\<open>from_id\<close>\<close>






subsection \<open>Creating a series and loading it again\<close>















end
